theory Spec2Isabelle
  imports Main "HOL-Library.Multiset"
begin

section \<open>Data and operations of the console, embedded from the TypeScript sources\<close>

text \<open>
  Conventions of the embedding.
  \<^item> An optional value (\<open>undefined\<close>, or the result of an optional chain \<open>a?.b?.c\<close>) is an
    \<open>option\<close>; \<open>x || d\<close> and \<open>x ?? d\<close> on such a value are a \<open>case\<close> with default \<open>d\<close>.
  \<^item> A JavaScript object used as a dictionary that the code walks with \<open>Object.keys\<close> is the
    list of its entries in \<open>Object.keys\<close> order; an object that the code only writes and reads by
    key is a map.
  \<^item> An event handler is a function from what it reads to the list of effects it issues.
\<close>

subsection \<open>Credit note creation form: \<open>determineCheckboxValue\<close>, \<open>mapStatus\<close>\<close>

text \<open>The values a tri-state checkbox accumulator takes: \<open>boolean | undefined | null\<close>.\<close>

datatype cbval = Undefined | Null | Bool bool

definition determineCheckboxValue :: "cbval \<Rightarrow> cbval \<Rightarrow> cbval" where
  "determineCheckboxValue initialValue additionnalValue =
     (if initialValue = Undefined \<or> additionnalValue = Undefined then Undefined
      else if initialValue = Null then additionnalValue
      else if initialValue \<noteq> additionnalValue then Undefined
      else additionnalValue)"

text \<open>
  \<open>InvoicePaymentStatusTypeEnum\<close> and \<open>StatusType\<close> are generated or design-system enums; the
  form names the members below.
\<close>

datatype InvoicePaymentStatusTypeEnum = Succeeded | Pending | Failed

datatype StatusType = success | default | warning | danger

record StatusProps =
  type :: StatusType
  label :: string

fun mapStatus :: "InvoicePaymentStatusTypeEnum option \<Rightarrow> StatusProps" where
  "mapStatus (Some Succeeded) = \<lparr>type = success, label = ''succeeded''\<rparr>"
| "mapStatus (Some Pending) = \<lparr>type = default, label = ''pending''\<rparr>"
| "mapStatus _ = \<lparr>type = warning, label = ''failed''\<rparr>"

text \<open>
  The fees of the form, \<open>formikProps.values.fees\<close>: one entry per subscription, each with its
  \<open>fees\<close> object. A child of that object is a \<open>FromFee\<close> (it has a boolean \<open>checked\<close>) or a
  \<open>GroupedFee\<close> (it has a \<open>grouped\<close> object of \<open>FromFee\<close>s); the code tells them apart at
  run time by \<open>typeof child?.checked === 'boolean'\<close>, so a child is modelled as an object
  with both properties optional.
\<close>

record FromFee =
  checked :: "bool option"

record GroupedFee = FromFee +
  grouped :: "(string \<times> FromFee) list option"

record SubscriptionFees =
  subscriptionName :: string
  fees :: "(string \<times> GroupedFee) list"

definition ofChecked :: "bool option \<Rightarrow> cbval" where
  "ofChecked c = (case c of None \<Rightarrow> Undefined | Some b \<Rightarrow> Bool b)"

text \<open>Reading a property of an object: a missing property reads as \<open>undefined\<close>.\<close>

definition readProp :: "(string \<rightharpoonup> cbval) \<Rightarrow> string \<Rightarrow> cbval" where
  "readProp obj k = (case obj k of None \<Rightarrow> Undefined | Some v \<Rightarrow> v)"

text \<open>The inner \<open>forEach\<close> over \<open>Object.keys(grouped || {})\<close>, seeded with \<open>null\<close>.\<close>

definition groupValueOf :: "(string \<times> FromFee) list option \<Rightarrow> cbval" where
  "groupValueOf g =
     fold (\<lambda>(groupedKey, feeValues) groupValue.
             determineCheckboxValue groupValue (ofChecked (checked feeValues)))
          (case g of None \<Rightarrow> [] | Some kvs \<Rightarrow> kvs) Null"

text \<open>
  One round of the \<open>forEach\<close> over \<open>Object.keys(subscriptionValues.fees)\<close>. The object
  \<open>subscriptionGroupValues\<close> is rebuilt by spreading: in the grouped branch the key
  \<open>childKey\<close> is written first and \<open>value\<close> after it.
\<close>

definition childStep ::
  "string \<times> GroupedFee \<Rightarrow> (string \<rightharpoonup> cbval) \<Rightarrow> (string \<rightharpoonup> cbval)" where
  "childStep kc subscriptionGroupValues =
     (let childKey = fst kc; child = snd kc in
      case checked child of
        Some b \<Rightarrow>
          subscriptionGroupValues
            (''value'' \<mapsto> determineCheckboxValue (readProp subscriptionGroupValues ''value'') (Bool b))
      | None \<Rightarrow>
          (let groupValue = groupValueOf (grouped child) in
           (subscriptionGroupValues(childKey \<mapsto> groupValue))
             (''value'' \<mapsto> determineCheckboxValue (readProp subscriptionGroupValues ''value'') groupValue)))"

definition subscriptionGroupValues :: "SubscriptionFees \<Rightarrow> (string \<rightharpoonup> cbval)" where
  "subscriptionGroupValues subscriptionValues =
     fold childStep (fees subscriptionValues) [''value'' \<mapsto> Null]"

definition checkboxGroupValue ::
  "(string \<times> SubscriptionFees) list option \<Rightarrow> (string \<rightharpoonup> (string \<rightharpoonup> cbval))" where
  "checkboxGroupValue formFees =
     fold (\<lambda>(subscriptionKey, subscriptionValues) acc.
             acc(subscriptionKey \<mapsto> subscriptionGroupValues subscriptionValues))
          (case formFees of None \<Rightarrow> [] | Some fs \<Rightarrow> fs) Map.empty"

text \<open>The value handed to the subscription's checkbox: \<open>_get(checkboxGroupValue, `${subKey}.value`)\<close>.\<close>

definition subscriptionCheckboxValue ::
  "(string \<times> SubscriptionFees) list option \<Rightarrow> string \<Rightarrow> cbval" where
  "subscriptionCheckboxValue formFees subKey =
     (case checkboxGroupValue formFees subKey of None \<Rightarrow> Undefined | Some g \<Rightarrow> readProp g ''value'')"

text \<open>
  The leaf fees of a subscription, in the order the reducer meets them: a child with a
  boolean \<open>checked\<close> is a leaf, any other child contributes the fees of its \<open>grouped\<close> object.
\<close>

definition childLeaves :: "GroupedFee \<Rightarrow> bool option list" where
  "childLeaves child =
     (case checked child of
        Some b \<Rightarrow> [Some b]
      | None \<Rightarrow> map (\<lambda>kv. checked (snd kv)) (case grouped child of None \<Rightarrow> [] | Some kvs \<Rightarrow> kvs))"

definition leaves :: "SubscriptionFees \<Rightarrow> bool option list" where
  "leaves subscriptionValues = concat (map (\<lambda>kc. childLeaves (snd kc)) (fees subscriptionValues))"

text \<open>Every child that is not itself a leaf holds at least one grouped fee.\<close>

definition groupsInhabited :: "SubscriptionFees \<Rightarrow> bool" where
  "groupsInhabited subscriptionValues =
     list_all (\<lambda>kc. childLeaves (snd kc) \<noteq> []) (fees subscriptionValues)"

text \<open>
  What one child hands to \<open>determineCheckboxValue\<close> as its second argument: its own flag,
  or the value folded over its group.
\<close>

definition childValue :: "GroupedFee \<Rightarrow> cbval" where
  "childValue child =
     (case checked child of Some b \<Rightarrow> Bool b | None \<Rightarrow> groupValueOf (grouped child))"

text \<open>
  The closed form of folding \<open>determineCheckboxValue\<close> from \<open>null\<close> over values none of
  which is \<open>null\<close>.
\<close>

definition foldedValue :: "cbval list \<Rightarrow> cbval" where
  "foldedValue vs =
     (if vs = [] then Null
      else if list_all (\<lambda>v. v = Bool True) vs then Bool True
      else if list_all (\<lambda>v. v = Bool False) vs then Bool False
      else Undefined)"

subsection \<open>Plan details: the charges section\<close>

record BillableMetric =
  bm_name :: string
  code :: string
  recurring :: bool

record Charge =
  charge_id :: string
  billableMetric :: BillableMetric

record EditPlanFragment =
  charges :: "Charge list option"

record ChargesSplit =
  meteredCharges :: "Charge list option"
  recurringCharges :: "Charge list option"

text \<open>
  The reducer of \<open>PlanDetailsChargesSection\<close>: the accumulator holds the two arrays, and
  \<open>push\<close> appends at the end.
\<close>

definition splitCharge :: "Charge \<Rightarrow> Charge list \<times> Charge list \<Rightarrow> Charge list \<times> Charge list" where
  "splitCharge charge acc =
     (if \<not> recurring (billableMetric charge)
      then (fst acc @ [charge], snd acc)
      else (fst acc, snd acc @ [charge]))"

definition planChargesSplit :: "EditPlanFragment option \<Rightarrow> ChargesSplit" where
  "planChargesSplit plan =
     (case (case plan of None \<Rightarrow> None | Some p \<Rightarrow> charges p) of
        None \<Rightarrow> \<lparr>meteredCharges = None, recurringCharges = None\<rparr>
      | Some cs \<Rightarrow>
          (let acc = fold splitCharge cs ([], [])
           in \<lparr>meteredCharges = Some (fst acc), recurringCharges = Some (snd acc)\<rparr>))"

subsection \<open>Infinite scroll of the webhook logs and of the customer wallets\<close>

text \<open>
  \<open>metadata\<close> is the value of \<open>data?.webhooks?.metadata\<close> (of \<open>data?.wallets?.metadata\<close>); the
  destructuring \<open>{ currentPage = 0, totalPages = 0 } = metadata || {}\<close> defaults each page
  number that is missing.
\<close>

record CollectionMetadata =
  currentPage :: "int option"
  totalPages :: "int option"

definition pageOr0 :: "CollectionMetadata option \<Rightarrow> (CollectionMetadata \<Rightarrow> int option) \<Rightarrow> int" where
  "pageOr0 metadata field =
     (case metadata of None \<Rightarrow> 0 | Some m \<Rightarrow> (case field m of None \<Rightarrow> 0 | Some n \<Rightarrow> n))"

datatype effect = SetFetchMoreLoading bool | FetchMore int

text \<open>
  \<open>onBottom\<close> of the webhook logs, up to its \<open>await\<close>; \<open>isLoading\<close> is the flag given by
  \<open>useDebouncedSearch\<close>. The effects are listed in the order the handler issues them.
\<close>

definition WebhookLogs_onBottom :: "CollectionMetadata option \<Rightarrow> bool \<Rightarrow> effect list" where
  "WebhookLogs_onBottom metadata isLoading =
     (let currentPage = pageOr0 metadata currentPage; totalPages = pageOr0 metadata totalPages in
      if currentPage < totalPages \<and> \<not> isLoading
      then [SetFetchMoreLoading True, FetchMore (currentPage + 1)]
      else [])"

text \<open>
  The rest of the handler runs when the promise of \<open>fetchMore\<close> settles. There is no
  \<open>try\<close> around the \<open>await\<close>: after a rejection nothing more is issued.
\<close>

datatype fetchMoreOutcome = Resolved | Rejected

definition WebhookLogs_afterFetchMore :: "fetchMoreOutcome \<Rightarrow> effect list" where
  "WebhookLogs_afterFetchMore outcome =
     (case outcome of Resolved \<Rightarrow> [SetFetchMoreLoading False] | Rejected \<Rightarrow> [])"



text \<open>
  The scrolling list over time. A state holds what the handler of the current render reads
  (the metadata and the loading flag delivered by the hooks), the \<open>fetchMoreLoading\<close> state
  of the webhook logs, and the pages requested by \<open>fetchMore\<close> whose promise has not
  settled. The events: the scroll reaches the bottom; a pending \<open>fetchMore\<close> settles; the
  hooks deliver new metadata and a new flag to the next render. The wallets keep no
  \<open>fetchMoreLoading\<close>, and their handler issues no \<open>SetFetchMoreLoading\<close>.
\<close>

record ScrollState =
  pageMetadata :: "CollectionMetadata option"
  loadingFlag :: bool
  fetchMoreLoading :: bool
  inFlight :: "int list"

fun applyEffect :: "effect \<Rightarrow> ScrollState \<Rightarrow> ScrollState" where
  "applyEffect (SetFetchMoreLoading b) st = st\<lparr>fetchMoreLoading := b\<rparr>"
| "applyEffect (FetchMore p) st = st\<lparr>inFlight := inFlight st @ [p]\<rparr>"

datatype scrollEvent =
  Bottom | FetchMoreSettled int fetchMoreOutcome | Render "CollectionMetadata option" bool

fun WebhookLogs_scrollStep :: "scrollEvent \<Rightarrow> ScrollState \<Rightarrow> ScrollState" where
  "WebhookLogs_scrollStep Bottom st =
     fold applyEffect (WebhookLogs_onBottom (pageMetadata st) (loadingFlag st)) st"
| "WebhookLogs_scrollStep (FetchMoreSettled p outcome) st =
     (if p \<in> set (inFlight st)
      then fold applyEffect (WebhookLogs_afterFetchMore outcome)
             (st\<lparr>inFlight := remove1 p (inFlight st)\<rparr>)
      else st)"
| "WebhookLogs_scrollStep (Render metadata isLoading) st =
     st\<lparr>pageMetadata := metadata, loadingFlag := isLoading\<rparr>"


subsection \<open>Webhook logs: grouping by date and the selected log\<close>

record WebhookLogFragment =
  log_id :: string
  createdAt :: string

text \<open>
  The reducer of \<open>groupedLogs\<close> over \<open>data?.webhooks?.collection || []\<close>. The accumulator is
  an object written and read by key; \<open>formatTimeOrgaTZ\<close> comes from \<open>useOrganizationInfos\<close>
  and is a parameter here. Its results are formatted dates: none of them names a property
  that the empty object inherits, so a key reads as \<open>undefined\<close> until the reducer writes it.
\<close>

definition groupLog ::
  "(string \<Rightarrow> string) \<Rightarrow> WebhookLogFragment \<Rightarrow> (string \<rightharpoonup> WebhookLogFragment list)
     \<Rightarrow> (string \<rightharpoonup> WebhookLogFragment list)" where
  "groupLog formatTimeOrgaTZ item acc =
     (let date = formatTimeOrgaTZ (createdAt item) in
      acc(date \<mapsto> (case acc date of Some logs \<Rightarrow> logs | None \<Rightarrow> []) @ [item]))"

definition groupedLogs ::
  "(string \<Rightarrow> string) \<Rightarrow> WebhookLogFragment list option \<Rightarrow> (string \<rightharpoonup> WebhookLogFragment list)" where
  "groupedLogs formatTimeOrgaTZ collection =
     fold (groupLog formatTimeOrgaTZ) (case collection of None \<Rightarrow> [] | Some c \<Rightarrow> c) Map.empty"

text \<open>
  The selection state of the page and the events that write it: the effect that runs when
  the fetched collection changes, a click on a log, and keyboard navigation.
\<close>

record WebhookLogsState =
  selectedLogId :: "string option"

definition hasLogs :: "WebhookLogFragment list option \<Rightarrow> bool" where
  "hasLogs collection = (case collection of None \<Rightarrow> False | Some c \<Rightarrow> length c \<noteq> 0)"

definition firstLogId :: "WebhookLogFragment list option \<Rightarrow> string option" where
  "firstLogId collection =
     (case collection of None \<Rightarrow> None | Some [] \<Rightarrow> None | Some (l # _) \<Rightarrow> Some (log_id l))"

definition selectionEffect :: "WebhookLogFragment list option \<Rightarrow> WebhookLogsState \<Rightarrow> WebhookLogsState" where
  "selectionEffect collection st =
     (if hasLogs collection then st\<lparr>selectedLogId := firstLogId collection\<rparr>
      else st\<lparr>selectedLogId := None\<rparr>)"

datatype webhookLogsEvent =
  DataUpdate "WebhookLogFragment list option" | LogClick string | KeyNavigate string

fun webhookLogsStep :: "webhookLogsEvent \<Rightarrow> WebhookLogsState \<Rightarrow> WebhookLogsState" where
  "webhookLogsStep (DataUpdate collection) st = selectionEffect collection st"
| "webhookLogsStep (LogClick i) st = st\<lparr>selectedLogId := Some i\<rparr>"
| "webhookLogsStep (KeyNavigate i) st = st\<lparr>selectedLogId := Some i\<rparr>"

subsection \<open>Integration pages: navigation after a deletion\<close>

datatype IntegrationsTabsOptionsEnum = Lago | Community

datatype route = INTEGRATIONS_ROUTE | MONEYHASH_INTEGRATION_ROUTE

text \<open>\<open>navigate(generatePath(route, { integrationGroup }))\<close>.\<close>

datatype navigation = Navigate route IntegrationsTabsOptionsEnum

definition PROVIDER_CONNECTION_LIMIT :: nat where
  "PROVIDER_CONNECTION_LIMIT = 2"

datatype ProviderTypeEnum = Moneyhash

record DetailsQueryVariables =
  integrationId :: string
  limit :: nat
  providerType :: ProviderTypeEnum

definition MoneyhashIntegrationDetails_variables :: "string \<Rightarrow> DetailsQueryVariables" where
  "MoneyhashIntegrationDetails_variables i =
     \<lparr>integrationId = i, limit = PROVIDER_CONNECTION_LIMIT, providerType = Moneyhash\<rparr>"

text \<open>
  \<open>providers\<close> is the value of \<open>data?.paymentProviders\<close>, reduced to its collection; the
  callback of the details page reads \<open>data?.paymentProviders?.collection.length || 0\<close>.
\<close>

definition MoneyhashIntegrationDetails_deleteDialogCallback :: "'a list option \<Rightarrow> navigation" where
  "MoneyhashIntegrationDetails_deleteDialogCallback providers =
     (if (case providers of None \<Rightarrow> 0 | Some c \<Rightarrow> length c) \<ge> PROVIDER_CONNECTION_LIMIT
      then Navigate MONEYHASH_INTEGRATION_ROUTE Community
      else Navigate INTEGRATIONS_ROUTE Community)"

text \<open>
  The list pages: \<open>connections\<close> is \<open>data?.paymentProviders?.collection\<close> (Moneyhash) or
  \<open>data?.integrations?.collection\<close> (Netsuite). A callback is represented by the navigation
  it performs; \<open>None\<close> is \<open>undefined\<close>.
\<close>

definition MoneyhashIntegrations_deleteDialogCallback :: "'a list option \<Rightarrow> navigation option" where
  "MoneyhashIntegrations_deleteDialogCallback connections =
     (case connections of
        None \<Rightarrow> None
      | Some c \<Rightarrow> if length c = 1 then Some (Navigate INTEGRATIONS_ROUTE Community) else None)"

definition NetsuiteIntegrations_deleteDialogCallback :: "'a list option \<Rightarrow> navigation option" where
  "NetsuiteIntegrations_deleteDialogCallback connections =
     (case connections of
        None \<Rightarrow> None
      | Some c \<Rightarrow> if length c = 1 then Some (Navigate INTEGRATIONS_ROUTE Lago) else None)"

text \<open>What the delete dialog is opened with when the delete entry of a connection is clicked.\<close>

record 'a DeleteDialogArgs =
  provider :: 'a
  callback :: "navigation option"

definition MoneyhashIntegrations_openDeleteDialog :: "'a list option \<Rightarrow> 'a \<Rightarrow> 'a DeleteDialogArgs" where
  "MoneyhashIntegrations_openDeleteDialog connections connection =
     \<lparr>provider = connection, callback = MoneyhashIntegrations_deleteDialogCallback connections\<rparr>"

definition NetsuiteIntegrations_openDeleteDialog :: "'a list option \<Rightarrow> 'a \<Rightarrow> 'a DeleteDialogArgs" where
  "NetsuiteIntegrations_openDeleteDialog connections connection =
     \<lparr>provider = connection, callback = NetsuiteIntegrations_deleteDialogCallback connections\<rparr>"

text \<open>
  What the edit dialog is opened with when the edit entry of a connection is clicked: it
  hands \<open>deleteDialogCallback\<close> on to the delete dialog it can open (\<open>deleteModalRef\<close>).
\<close>

record 'a AddDialogArgs =
  editedProvider :: 'a
  deleteDialogCallback :: "navigation option"

definition MoneyhashIntegrations_openAddDialog :: "'a list option \<Rightarrow> 'a \<Rightarrow> 'a AddDialogArgs" where
  "MoneyhashIntegrations_openAddDialog connections connection =
     \<lparr>editedProvider = connection,
      deleteDialogCallback = MoneyhashIntegrations_deleteDialogCallback connections\<rparr>"

definition NetsuiteIntegrations_openAddDialog :: "'a list option \<Rightarrow> 'a \<Rightarrow> 'a AddDialogArgs" where
  "NetsuiteIntegrations_openAddDialog connections connection =
     \<lparr>editedProvider = connection,
      deleteDialogCallback = NetsuiteIntegrations_deleteDialogCallback connections\<rparr>"

subsection \<open>Permission checks of the Moneyhash pages and of the customer wallets\<close>

text \<open>
  \<open>hasPermissions\<close> is given by the \<open>usePermissions\<close> hook and is a parameter of the views:
  it takes the list of permissions to check. A view is what the component renders of its
  actions.
\<close>

datatype permission =
  organizationIntegrationsCreate | organizationIntegrationsUpdate | organizationIntegrationsDelete
  | walletsCreate | walletsTopUp | walletsUpdate | walletsTerminate

datatype integrationAction = EditIntegration | DeleteIntegration

definition integrationMenu :: "bool \<Rightarrow> bool \<Rightarrow> integrationAction list option" where
  "integrationMenu canEditIntegration canDeleteIntegration =
     (if canEditIntegration \<or> canDeleteIntegration
      then Some ((if canEditIntegration then [EditIntegration] else [])
                 @ (if canDeleteIntegration then [DeleteIntegration] else []))
      else None)"

record MoneyhashDetailsView =
  actionsMenu :: "integrationAction list option"
  editButton :: bool

definition MoneyhashIntegrationDetails_view :: "(permission list \<Rightarrow> bool) \<Rightarrow> MoneyhashDetailsView" where
  "MoneyhashIntegrationDetails_view hasPermissions =
     (let canEditIntegration = hasPermissions [organizationIntegrationsUpdate];
          canDeleteIntegration = hasPermissions [organizationIntegrationsDelete]
      in \<lparr>actionsMenu = integrationMenu canEditIntegration canDeleteIntegration,
          editButton = canEditIntegration\<rparr>)"

record MoneyhashListView =
  createButton :: bool
  connectionMenus :: "integrationAction list option list"

definition MoneyhashIntegrations_view ::
  "(permission list \<Rightarrow> bool) \<Rightarrow> bool \<Rightarrow> 'a list option \<Rightarrow> MoneyhashListView" where
  "MoneyhashIntegrations_view hasPermissions loading connections =
     (let canCreateIntegration = hasPermissions [organizationIntegrationsCreate];
          canEditIntegration = hasPermissions [organizationIntegrationsUpdate];
          canDeleteIntegration = hasPermissions [organizationIntegrationsDelete]
      in \<lparr>createButton = canCreateIntegration,
          connectionMenus =
            (if loading then []
             else map (\<lambda>connection. integrationMenu canEditIntegration canDeleteIntegration)
                    (case connections of None \<Rightarrow> [] | Some c \<Rightarrow> c))\<rparr>)"

datatype walletAction = TopUpWallet | EditWallet | VoidWallet | TerminateWallet

datatype walletActionArea = CreateWalletButton | WalletActionsMenu "walletAction list"

datatype walletsView = ErrorPlaceholder | WalletsSection "walletActionArea option"

definition CustomerWalletsList_view ::
  "(permission list \<Rightarrow> bool) \<Rightarrow> bool \<Rightarrow> bool \<Rightarrow> bool \<Rightarrow> walletsView" where
  "CustomerWalletsList_view hasPermissions loading error activeWallet =
     (let hasAnyPermissionsToShowActions =
            hasPermissions [walletsCreate, walletsTopUp, walletsUpdate, walletsTerminate]
      in if \<not> loading \<and> error then ErrorPlaceholder
         else WalletsSection
           (if hasAnyPermissionsToShowActions
            then Some (if \<not> activeWallet \<and> hasPermissions [walletsCreate] then CreateWalletButton
                       else WalletActionsMenu
                              ((if hasPermissions [walletsTopUp] then [TopUpWallet] else [])
                               @ (if hasPermissions [walletsUpdate] then [EditWallet] else [])
                               @ (if hasPermissions [walletsTerminate]
                                  then [VoidWallet, TerminateWallet] else [])))
            else None))"

text \<open>
  Modelled from the spec: the \<open>usePermissions\<close> hook is not among the sources, and the spec
  only says that the console performs permission checks. The two readings of a check of
  several permissions against the permissions a user holds, all of them held and at least
  one of them held, serve as instances of the parameter \<open>hasPermissions\<close>.
\<close>

definition hasPermissionsEvery :: "(permission \<Rightarrow> bool) \<Rightarrow> permission list \<Rightarrow> bool" where
  "hasPermissionsEvery held permissionsToCheck = list_all held permissionsToCheck"

definition hasPermissionsSome :: "(permission \<Rightarrow> bool) \<Rightarrow> permission list \<Rightarrow> bool" where
  "hasPermissionsSome held permissionsToCheck = list_ex held permissionsToCheck"

subsection \<open>Sample inputs\<close>

definition ch :: "string \<Rightarrow> bool \<Rightarrow> Charge" where
  "ch i r = \<lparr>charge_id = i, billableMetric = \<lparr>bm_name = ''metric'', code = ''code'', recurring = r\<rparr>\<rparr>"

definition lg :: "string \<Rightarrow> string \<Rightarrow> WebhookLogFragment" where
  "lg i t = \<lparr>log_id = i, createdAt = t\<rparr>"

definition editorOnly :: "permission \<Rightarrow> bool" where
  "editorOnly p = (p = organizationIntegrationsUpdate \<or> p = walletsTopUp)"

definition fee :: "bool option \<Rightarrow> FromFee" where
  "fee c = \<lparr>checked = c\<rparr>"

definition leaf :: "bool \<Rightarrow> GroupedFee" where
  "leaf b = \<lparr>checked = Some b, grouped = None\<rparr>"

definition group :: "(string \<times> FromFee) list \<Rightarrow> GroupedFee" where
  "group kvs = \<lparr>checked = None, grouped = Some kvs\<rparr>"

definition subNoFees :: SubscriptionFees where
  "subNoFees = \<lparr>subscriptionName = ''Plan A'', fees = []\<rparr>"

definition subEmptyGroupLast :: SubscriptionFees where
  "subEmptyGroupLast =
     \<lparr>subscriptionName = ''Plan A'', fees = [(''fee1'', leaf True), (''group1'', group [])]\<rparr>"

definition subEmptyGroupFirst :: SubscriptionFees where
  "subEmptyGroupFirst =
     \<lparr>subscriptionName = ''Plan A'', fees = [(''group1'', group []), (''fee1'', leaf True)]\<rparr>"

definition subAllChecked :: SubscriptionFees where
  "subAllChecked =
     \<lparr>subscriptionName = ''Plan A'',
      fees = [(''fee1'', leaf True),
              (''group1'', group [(''fee2'', fee (Some True)), (''fee3'', fee (Some True))])]\<rparr>"

definition subMixed :: SubscriptionFees where
  "subMixed =
     \<lparr>subscriptionName = ''Plan B'',
      fees = [(''fee1'', leaf True),
              (''group1'', group [(''fee2'', fee (Some True)), (''fee3'', fee (Some False))])]\<rparr>"

definition firstPageIdle :: ScrollState where
  "firstPageIdle =
     \<lparr>pageMetadata = Some \<lparr>currentPage = Some 0, totalPages = Some 3\<rparr>,
      loadingFlag = False, fetchMoreLoading = False, inFlight = []\<rparr>"

section \<open>Properties\<close>

subsection \<open>Payment status badge\<close>

text \<open>
  C10. \<open>mapStatus\<close> is total on its optional input: \<open>Succeeded\<close> gives the success badge
  labelled "succeeded", \<open>Pending\<close> the default badge labelled "pending", and every other
  input, \<open>Failed\<close> and the absent status included, the warning badge labelled "failed".
\<close>

theorem C10_mapStatus_total:
  "mapStatus t =
     (if t = Some Succeeded then \<lparr>type = success, label = ''succeeded''\<rparr>
      else if t = Some Pending then \<lparr>type = default, label = ''pending''\<rparr>
      else \<lparr>type = warning, label = ''failed''\<rparr>)"
  by (cases t rule: mapStatus.cases) simp_all

theorem C10_mapStatus_witness:
  "mapStatus None = \<lparr>type = warning, label = ''failed''\<rparr>
   \<and> mapStatus (Some Failed) = \<lparr>type = warning, label = ''failed''\<rparr>
   \<and> mapStatus (Some Pending) = \<lparr>type = default, label = ''pending''\<rparr>
   \<and> mapStatus (Some Succeeded) = \<lparr>type = success, label = ''succeeded''\<rparr>"
  using C10_mapStatus_total [of None] C10_mapStatus_total [of "Some Failed"]
    C10_mapStatus_total [of "Some Pending"] C10_mapStatus_total [of "Some Succeeded"]
  by simp

subsection \<open>Charges of a plan\<close>

lemma fold_splitCharge:
  "fold splitCharge cs acc =
     (fst acc @ filter (\<lambda>c. \<not> recurring (billableMetric c)) cs,
      snd acc @ filter (\<lambda>c. recurring (billableMetric c)) cs)"
  by (induction cs arbitrary: acc) (simp_all add: splitCharge_def)

text \<open>
  C3. \<open>PlanDetailsChargesSection\<close> splits the charges of a plan into two lists that partition
  them: \<open>meteredCharges\<close> holds exactly the charges whose billable metric is not recurring,
  \<open>recurringCharges\<close> exactly those whose billable metric is recurring, each in the order of
  the plan's charge list, and together they hold every charge once. When the plan or its
  charge list is absent, both lists are absent.
\<close>

theorem C3_charges_partition:
  "((case plan of None \<Rightarrow> None | Some p \<Rightarrow> charges p) = None \<longrightarrow>
      meteredCharges (planChargesSplit plan) = None \<and> recurringCharges (planChargesSplit plan) = None)
   \<and> (\<forall>p cs. plan = Some p \<and> charges p = Some cs \<longrightarrow>
        meteredCharges (planChargesSplit plan) = Some (filter (\<lambda>c. \<not> recurring (billableMetric c)) cs)
        \<and> recurringCharges (planChargesSplit plan) = Some (filter (\<lambda>c. recurring (billableMetric c)) cs)
        \<and> mset (filter (\<lambda>c. \<not> recurring (billableMetric c)) cs)
            + mset (filter (\<lambda>c. recurring (billableMetric c)) cs) = mset cs)"
proof (intro conjI impI allI)
  assume "(case plan of None \<Rightarrow> None | Some p \<Rightarrow> charges p) = None"
  then show "meteredCharges (planChargesSplit plan) = None"
    and "recurringCharges (planChargesSplit plan) = None"
    by (simp_all add: planChargesSplit_def)
next
  fix p cs
  assume h: "plan = Some p \<and> charges p = Some cs"
  then show "meteredCharges (planChargesSplit plan) = Some (filter (\<lambda>c. \<not> recurring (billableMetric c)) cs)"
    by (simp add: planChargesSplit_def fold_splitCharge Let_def)
  from h show "recurringCharges (planChargesSplit plan) = Some (filter (\<lambda>c. recurring (billableMetric c)) cs)"
    by (simp add: planChargesSplit_def fold_splitCharge Let_def)
  show "mset (filter (\<lambda>c. \<not> recurring (billableMetric c)) cs)
            + mset (filter (\<lambda>c. recurring (billableMetric c)) cs) = mset cs"
    by (induction cs) simp_all
qed

theorem C3_charges_partition_witness:
  "meteredCharges (planChargesSplit (Some \<lparr>charges = Some [ch ''a'' False, ch ''b'' True, ch ''c'' False]\<rparr>))
     = Some [ch ''a'' False, ch ''c'' False]
   \<and> recurringCharges (planChargesSplit (Some \<lparr>charges = Some [ch ''a'' False, ch ''b'' True, ch ''c'' False]\<rparr>))
     = Some [ch ''b'' True]
   \<and> meteredCharges (planChargesSplit None) = None
   \<and> recurringCharges (planChargesSplit (Some \<lparr>charges = None\<rparr>)) = None"
  using C3_charges_partition [of "Some \<lparr>charges = Some [ch ''a'' False, ch ''b'' True, ch ''c'' False]\<rparr>"]
    C3_charges_partition [of None] C3_charges_partition [of "Some \<lparr>charges = None\<rparr>"]
  by (simp add: ch_def)

subsection \<open>Infinite scroll\<close>

lemma WebhookLogs_fetchMore_settled:
  "fetchMoreLoading (fold WebhookLogs_scrollStep [Bottom, FetchMoreSettled 1 Resolved] firstPageIdle) = False"
  "fetchMoreLoading (fold WebhookLogs_scrollStep [Bottom, FetchMoreSettled 1 Rejected] firstPageIdle) = True"
  "inFlight (fold WebhookLogs_scrollStep [Bottom, FetchMoreSettled 1 Rejected] firstPageIdle) = []"
  by (simp_all add: firstPageIdle_def WebhookLogs_onBottom_def WebhookLogs_afterFetchMore_def pageOr0_def)




subsection \<open>Navigation after deleting an integration\<close>

text \<open>
  C4. On the Moneyhash details page, the callback run after a deletion navigates to the
  Moneyhash integrations list if and only if the query, issued with limit
  \<open>PROVIDER_CONNECTION_LIMIT = 2\<close>, returned at least 2 providers, and to the community
  integrations page otherwise; an absent provider collection counts as 0.
\<close>

theorem C4_details_deleteDialogCallback:
  "(MoneyhashIntegrationDetails_deleteDialogCallback providers = Navigate MONEYHASH_INTEGRATION_ROUTE Community
      \<longleftrightarrow> 2 \<le> (case providers of None \<Rightarrow> 0 | Some c \<Rightarrow> length c))
   \<and> (MoneyhashIntegrationDetails_deleteDialogCallback providers = Navigate INTEGRATIONS_ROUTE Community
      \<longleftrightarrow> (case providers of None \<Rightarrow> 0 | Some c \<Rightarrow> length c) < 2)
   \<and> limit (MoneyhashIntegrationDetails_variables i) = 2"
  by (auto simp add: MoneyhashIntegrationDetails_deleteDialogCallback_def
      MoneyhashIntegrationDetails_variables_def PROVIDER_CONNECTION_LIMIT_def)

theorem C4_details_deleteDialogCallback_witness:
  "MoneyhashIntegrationDetails_deleteDialogCallback (Some [''a'', ''b'']) = Navigate MONEYHASH_INTEGRATION_ROUTE Community
   \<and> MoneyhashIntegrationDetails_deleteDialogCallback (Some [''a'']) = Navigate INTEGRATIONS_ROUTE Community
   \<and> MoneyhashIntegrationDetails_deleteDialogCallback (None :: string list option) = Navigate INTEGRATIONS_ROUTE Community"
  using C4_details_deleteDialogCallback [of "Some [''a'', ''b'']"]
    C4_details_deleteDialogCallback [of "Some [''a'']"]
    C4_details_deleteDialogCallback [of "None :: string list option"]
  by simp

text \<open>
  C5. On the Moneyhash and the Netsuite list pages, the delete dialog is opened with a
  callback that navigates to the integrations page if and only if the fetched connection
  list exists and has exactly one connection; otherwise the callback is undefined.
\<close>

theorem C5_list_deleteDialogCallback:
  "callback (MoneyhashIntegrations_openDeleteDialog connections connection)
     = (if \<exists>c. connections = Some c \<and> length c = 1
        then Some (Navigate INTEGRATIONS_ROUTE Community) else None)
   \<and> callback (NetsuiteIntegrations_openDeleteDialog connections connection)
     = (if \<exists>c. connections = Some c \<and> length c = 1
        then Some (Navigate INTEGRATIONS_ROUTE Lago) else None)
   \<and> deleteDialogCallback (MoneyhashIntegrations_openAddDialog connections connection)
     = callback (MoneyhashIntegrations_openDeleteDialog connections connection)
   \<and> deleteDialogCallback (NetsuiteIntegrations_openAddDialog connections connection)
     = callback (NetsuiteIntegrations_openDeleteDialog connections connection)"
  by (auto simp add: MoneyhashIntegrations_openDeleteDialog_def NetsuiteIntegrations_openDeleteDialog_def
      MoneyhashIntegrations_openAddDialog_def NetsuiteIntegrations_openAddDialog_def
      MoneyhashIntegrations_deleteDialogCallback_def NetsuiteIntegrations_deleteDialogCallback_def
      split: option.splits)

theorem C5_list_deleteDialogCallback_witness:
  "callback (MoneyhashIntegrations_openDeleteDialog (Some [''a'']) ''a'') = Some (Navigate INTEGRATIONS_ROUTE Community)
   \<and> callback (NetsuiteIntegrations_openDeleteDialog (Some [''a'']) ''a'') = Some (Navigate INTEGRATIONS_ROUTE Lago)
   \<and> callback (MoneyhashIntegrations_openDeleteDialog (Some [''a'', ''b'']) ''a'') = None
   \<and> callback (NetsuiteIntegrations_openDeleteDialog (Some []) ''a'') = None
   \<and> callback (MoneyhashIntegrations_openDeleteDialog None ''a'') = None"
  using C5_list_deleteDialogCallback [of "Some [''a'']" "''a''"]
    C5_list_deleteDialogCallback [of "Some [''a'', ''b'']" "''a''"]
    C5_list_deleteDialogCallback [of "Some []" "''a''"]
    C5_list_deleteDialogCallback [of "None" "''a''"]
  by simp

subsection \<open>Selected webhook log\<close>

text \<open>
  C9. After every update of the fetched data, whatever happened before: if the collection is
  not empty, the selected log is the first of the collection; if it is empty or absent, no
  log is selected.
\<close>

theorem C9_selected_after_update:
  "selectedLogId (fold webhookLogsStep (events @ [DataUpdate collection]) st)
     = (case collection of Some (l # ls) \<Rightarrow> Some (log_id l) | _ \<Rightarrow> None)"
  by (simp add: selectionEffect_def hasLogs_def firstLogId_def split: option.splits list.splits)

theorem C9_selected_after_update_witness:
  "selectedLogId (fold webhookLogsStep
      [LogClick ''z'', DataUpdate (Some [\<lparr>log_id = ''a'', createdAt = ''t1''\<rparr>, \<lparr>log_id = ''b'', createdAt = ''t2''\<rparr>])]
      \<lparr>selectedLogId = None\<rparr>) = Some ''a''
   \<and> selectedLogId (fold webhookLogsStep [LogClick ''z'', DataUpdate (Some [])] \<lparr>selectedLogId = None\<rparr>) = None
   \<and> selectedLogId (fold webhookLogsStep [LogClick ''z'', DataUpdate None] \<lparr>selectedLogId = None\<rparr>) = None"
  using C9_selected_after_update [of "[LogClick ''z'']" "Some [\<lparr>log_id = ''a'', createdAt = ''t1''\<rparr>, \<lparr>log_id = ''b'', createdAt = ''t2''\<rparr>]" "\<lparr>selectedLogId = None\<rparr>"]
    C9_selected_after_update [of "[LogClick ''z'']" "Some []" "\<lparr>selectedLogId = None\<rparr>"]
    C9_selected_after_update [of "[LogClick ''z'']" "None" "\<lparr>selectedLogId = None\<rparr>"]
  by simp

subsection \<open>Webhook logs grouped by date\<close>

lemma fold_groupLog:
  "fold (groupLog f) xs acc k =
     (if filter (\<lambda>l. f (createdAt l) = k) xs = [] then acc k
      else Some ((case acc k of Some logs \<Rightarrow> logs | None \<Rightarrow> []) @ filter (\<lambda>l. f (createdAt l) = k) xs))"
proof (induction xs arbitrary: acc)
  case Nil
  show ?case by simp
next
  case (Cons x xs)
  show ?case
    by (simp add: Cons.IH) (simp add: groupLog_def Let_def)
qed

lemma groupedLogs_filter:
  "groupedLogs f (Some c) k =
     (if filter (\<lambda>l. f (createdAt l) = k) c = [] then None
      else Some (filter (\<lambda>l. f (createdAt l) = k) c))"
  by (simp add: groupedLogs_def fold_groupLog)

lemma count_list_filter:
  "count_list (filter P xs) x = (if P x then count_list xs x else 0)"
  by (induction xs) auto

text \<open>
  C8. The \<open>groupedLogs\<close> reducer puts every log of the fetched collection in exactly one
  group, the one whose key is the log's creation timestamp formatted in the organization's
  timezone; each group keeps its logs in the order of the collection; an empty or absent
  collection gives the empty grouping.
\<close>

theorem C8_groupedLogs:
  "(\<forall>k. groupedLogs f (Some c) k =
          (if filter (\<lambda>l. f (createdAt l) = k) c = [] then None
           else Some (filter (\<lambda>l. f (createdAt l) = k) c)))
   \<and> (\<forall>l k g. groupedLogs f (Some c) k = Some g \<longrightarrow>
          count_list g l = (if k = f (createdAt l) then count_list c l else 0))
   \<and> (\<forall>l \<in> set c. \<exists>g. groupedLogs f (Some c) (f (createdAt l)) = Some g \<and> l \<in> set g)
   \<and> groupedLogs f (Some []) = Map.empty
   \<and> groupedLogs f None = Map.empty"
proof (intro conjI allI impI ballI)
  fix k
  show "groupedLogs f (Some c) k =
          (if filter (\<lambda>l. f (createdAt l) = k) c = [] then None
           else Some (filter (\<lambda>l. f (createdAt l) = k) c))"
    by (rule groupedLogs_filter)
next
  fix l k g
  assume "groupedLogs f (Some c) k = Some g"
  then have "g = filter (\<lambda>l. f (createdAt l) = k) c"
    by (simp add: groupedLogs_filter split: if_splits)
  then show "count_list g l = (if k = f (createdAt l) then count_list c l else 0)"
    by (auto simp add: count_list_filter)
next
  fix l
  assume "l \<in> set c"
  then have m: "l \<in> set (filter (\<lambda>l'. f (createdAt l') = f (createdAt l)) c)"
    by simp
  then have "filter (\<lambda>l'. f (createdAt l') = f (createdAt l)) c \<noteq> []"
    by (cases "filter (\<lambda>l'. f (createdAt l') = f (createdAt l)) c") simp_all
  with m show "\<exists>g. groupedLogs f (Some c) (f (createdAt l)) = Some g \<and> l \<in> set g"
    by (simp add: groupedLogs_filter)
next
  show "groupedLogs f (Some []) = Map.empty"
    by (simp add: groupedLogs_def)
  show "groupedLogs f None = Map.empty"
    by (simp add: groupedLogs_def)
qed

theorem C8_groupedLogs_witness:
  "groupedLogs (take 10) (Some [lg ''a'' ''2024-01-02T10:00'', lg ''b'' ''2024-01-01T09:00'', lg ''c'' ''2024-01-02T08:00''])
      ''2024-01-02'' = Some [lg ''a'' ''2024-01-02T10:00'', lg ''c'' ''2024-01-02T08:00'']
   \<and> groupedLogs (take 10) (Some [lg ''a'' ''2024-01-02T10:00'', lg ''b'' ''2024-01-01T09:00'', lg ''c'' ''2024-01-02T08:00''])
      ''2024-01-01'' = Some [lg ''b'' ''2024-01-01T09:00'']
   \<and> groupedLogs (take 10) (Some [lg ''a'' ''2024-01-02T10:00'', lg ''b'' ''2024-01-01T09:00'', lg ''c'' ''2024-01-02T08:00''])
      ''2024-01-03'' = None"
  using C8_groupedLogs [of "take 10" "[lg ''a'' ''2024-01-02T10:00'', lg ''b'' ''2024-01-01T09:00'', lg ''c'' ''2024-01-02T08:00'']"]
  by (simp add: lg_def)

subsection \<open>Permission gates\<close>

lemma hasPermissionsEvery_any:
  "hasPermissionsEvery held (p # ps) \<Longrightarrow> \<exists>q \<in> set (p # ps). hasPermissionsEvery held [q]"
  by (simp add: hasPermissionsEvery_def)

lemma hasPermissionsSome_any:
  "hasPermissionsSome held ps \<Longrightarrow> \<exists>q \<in> set ps. hasPermissionsSome held [q]"
  by (auto simp add: hasPermissionsSome_def list_ex_iff)

lemma integrationMenu_items:
  "integrationMenu e d = Some items \<Longrightarrow>
     (EditIntegration \<in> set items \<longrightarrow> e) \<and> (DeleteIntegration \<in> set items \<longrightarrow> d)"
  by (auto simp add: integrationMenu_def split: if_splits)

lemma integrationMenu_None: "\<not> e \<Longrightarrow> \<not> d \<Longrightarrow> integrationMenu e d = None"
  by (simp add: integrationMenu_def)

text \<open>
  C6. Whatever the permissions of the user: the Moneyhash pages render the edit action only
  if \<open>organizationIntegrationsUpdate\<close> is granted, the delete action only if
  \<open>organizationIntegrationsDelete\<close> is granted, the create button only if
  \<open>organizationIntegrationsCreate\<close> is granted, and no actions menu when neither update nor
  delete is granted; the customer wallets render their action area only if at least one of
  \<open>walletsCreate\<close>, \<open>walletsTopUp\<close>, \<open>walletsUpdate\<close>, \<open>walletsTerminate\<close> is granted. A
  permission is granted when \<open>hasPermissions\<close> answers true for it alone; the hook is assumed
  to grant a check of the four wallet permissions only if it grants one of them alone, which
  both readings of the hook do.
\<close>

theorem C6_permission_gates:
  assumes any: "hasPermissions [walletsCreate, walletsTopUp, walletsUpdate, walletsTerminate] \<longrightarrow>
       hasPermissions [walletsCreate] \<or> hasPermissions [walletsTopUp]
       \<or> hasPermissions [walletsUpdate] \<or> hasPermissions [walletsTerminate]"
  shows
  "(\<forall>items. actionsMenu (MoneyhashIntegrationDetails_view hasPermissions) = Some items \<longrightarrow>
       (EditIntegration \<in> set items \<longrightarrow> hasPermissions [organizationIntegrationsUpdate])
       \<and> (DeleteIntegration \<in> set items \<longrightarrow> hasPermissions [organizationIntegrationsDelete]))
   \<and> (editButton (MoneyhashIntegrationDetails_view hasPermissions) \<longrightarrow>
        hasPermissions [organizationIntegrationsUpdate])
   \<and> (\<not> hasPermissions [organizationIntegrationsUpdate] \<and> \<not> hasPermissions [organizationIntegrationsDelete] \<longrightarrow>
        actionsMenu (MoneyhashIntegrationDetails_view hasPermissions) = None)
   \<and> (createButton (MoneyhashIntegrations_view hasPermissions loading connections) \<longrightarrow>
        hasPermissions [organizationIntegrationsCreate])
   \<and> (\<forall>menu \<in> set (connectionMenus (MoneyhashIntegrations_view hasPermissions loading connections)).
        (\<forall>items. menu = Some items \<longrightarrow>
           (EditIntegration \<in> set items \<longrightarrow> hasPermissions [organizationIntegrationsUpdate])
           \<and> (DeleteIntegration \<in> set items \<longrightarrow> hasPermissions [organizationIntegrationsDelete]))
        \<and> (\<not> hasPermissions [organizationIntegrationsUpdate] \<and> \<not> hasPermissions [organizationIntegrationsDelete] \<longrightarrow>
             menu = None))
   \<and> (\<forall>area. CustomerWalletsList_view hasPermissions loadingWallets error activeWallet = WalletsSection (Some area) \<longrightarrow>
        hasPermissions [walletsCreate] \<or> hasPermissions [walletsTopUp]
        \<or> hasPermissions [walletsUpdate] \<or> hasPermissions [walletsTerminate])"
proof (intro conjI)
  show "\<forall>items. actionsMenu (MoneyhashIntegrationDetails_view hasPermissions) = Some items \<longrightarrow>
       (EditIntegration \<in> set items \<longrightarrow> hasPermissions [organizationIntegrationsUpdate])
       \<and> (DeleteIntegration \<in> set items \<longrightarrow> hasPermissions [organizationIntegrationsDelete])"
    by (auto simp add: MoneyhashIntegrationDetails_view_def Let_def dest: integrationMenu_items)
  show "editButton (MoneyhashIntegrationDetails_view hasPermissions) \<longrightarrow>
        hasPermissions [organizationIntegrationsUpdate]"
    by (simp add: MoneyhashIntegrationDetails_view_def Let_def)
  show "\<not> hasPermissions [organizationIntegrationsUpdate] \<and> \<not> hasPermissions [organizationIntegrationsDelete] \<longrightarrow>
        actionsMenu (MoneyhashIntegrationDetails_view hasPermissions) = None"
    by (simp add: MoneyhashIntegrationDetails_view_def Let_def integrationMenu_None)
  show "createButton (MoneyhashIntegrations_view hasPermissions loading connections) \<longrightarrow>
        hasPermissions [organizationIntegrationsCreate]"
    by (simp add: MoneyhashIntegrations_view_def Let_def)
  show "\<forall>menu \<in> set (connectionMenus (MoneyhashIntegrations_view hasPermissions loading connections)).
        (\<forall>items. menu = Some items \<longrightarrow>
           (EditIntegration \<in> set items \<longrightarrow> hasPermissions [organizationIntegrationsUpdate])
           \<and> (DeleteIntegration \<in> set items \<longrightarrow> hasPermissions [organizationIntegrationsDelete]))
        \<and> (\<not> hasPermissions [organizationIntegrationsUpdate] \<and> \<not> hasPermissions [organizationIntegrationsDelete] \<longrightarrow>
             menu = None)"
  proof
    fix menu
    assume "menu \<in> set (connectionMenus (MoneyhashIntegrations_view hasPermissions loading connections))"
    then have m: "menu = integrationMenu (hasPermissions [organizationIntegrationsUpdate])
                      (hasPermissions [organizationIntegrationsDelete])"
      by (auto simp add: MoneyhashIntegrations_view_def Let_def split: if_splits)
    show "(\<forall>items. menu = Some items \<longrightarrow>
           (EditIntegration \<in> set items \<longrightarrow> hasPermissions [organizationIntegrationsUpdate])
           \<and> (DeleteIntegration \<in> set items \<longrightarrow> hasPermissions [organizationIntegrationsDelete]))
        \<and> (\<not> hasPermissions [organizationIntegrationsUpdate] \<and> \<not> hasPermissions [organizationIntegrationsDelete] \<longrightarrow>
             menu = None)"
      unfolding m using integrationMenu_items integrationMenu_None by blast
  qed
  show "\<forall>area. CustomerWalletsList_view hasPermissions loadingWallets error activeWallet = WalletsSection (Some area) \<longrightarrow>
        hasPermissions [walletsCreate] \<or> hasPermissions [walletsTopUp]
        \<or> hasPermissions [walletsUpdate] \<or> hasPermissions [walletsTerminate]"
  proof (intro allI impI)
    fix area
    assume "CustomerWalletsList_view hasPermissions loadingWallets error activeWallet = WalletsSection (Some area)"
    then have "hasPermissions [walletsCreate, walletsTopUp, walletsUpdate, walletsTerminate]"
      by (simp add: CustomerWalletsList_view_def Let_def split: if_splits)
    with any show "hasPermissions [walletsCreate] \<or> hasPermissions [walletsTopUp]
        \<or> hasPermissions [walletsUpdate] \<or> hasPermissions [walletsTerminate]"
      by blast
  qed
qed

theorem C6_permission_gates_witness:
  "actionsMenu (MoneyhashIntegrationDetails_view (hasPermissionsEvery editorOnly)) = Some [EditIntegration]
   \<and> hasPermissionsEvery editorOnly [organizationIntegrationsUpdate]
   \<and> \<not> hasPermissionsEvery editorOnly [organizationIntegrationsDelete]
   \<and> \<not> createButton (MoneyhashIntegrations_view (hasPermissionsEvery editorOnly) False (Some [''a'']))
   \<and> connectionMenus (MoneyhashIntegrations_view (hasPermissionsEvery editorOnly) False (Some [''a''])) = [Some [EditIntegration]]
   \<and> CustomerWalletsList_view (hasPermissionsEvery editorOnly) False False True = WalletsSection None
   \<and> CustomerWalletsList_view (hasPermissionsSome editorOnly) False False True
       = WalletsSection (Some (WalletActionsMenu [TopUpWallet]))
   \<and> hasPermissionsSome editorOnly [walletsTopUp]"
  using C6_permission_gates [of "hasPermissionsEvery editorOnly" False "Some [''a'']" False False True]
    C6_permission_gates [of "hasPermissionsSome editorOnly" False "Some [''a'']" False False True]
  by (simp add: hasPermissionsEvery_def hasPermissionsSome_def editorOnly_def MoneyhashIntegrationDetails_view_def
      MoneyhashIntegrations_view_def CustomerWalletsList_view_def integrationMenu_def)

subsection \<open>Tri-state checkbox of a subscription\<close>

lemma det_simps:
  "determineCheckboxValue Undefined x = Undefined"
  "determineCheckboxValue x Undefined = Undefined"
  "determineCheckboxValue Null x = x"
  "determineCheckboxValue (Bool b) Null = Undefined"
  "determineCheckboxValue (Bool b) (Bool b') = (if b = b' then Bool b else Undefined)"
  by (auto simp add: determineCheckboxValue_def)

lemma fold_det_Undefined:
  "fold (\<lambda>x acc. determineCheckboxValue acc (g x)) xs Undefined = Undefined"
  by (induction xs) (simp_all add: det_simps)

lemma fold_det_Bool:
  "\<forall>x \<in> set xs. g x \<noteq> Null \<Longrightarrow>
   fold (\<lambda>x acc. determineCheckboxValue acc (g x)) xs (Bool b)
     = (if list_all (\<lambda>x. g x = Bool b) xs then Bool b else Undefined)"
proof (induction xs)
  case Nil
  show ?case by simp
next
  case (Cons x xs)
  then have IH: "fold (\<lambda>x acc. determineCheckboxValue acc (g x)) xs (Bool b)
     = (if list_all (\<lambda>x. g x = Bool b) xs then Bool b else Undefined)"
    and nx: "g x \<noteq> Null"
    by simp_all
  show ?case
  proof (cases "g x = Bool b")
    case True
    then show ?thesis by (simp add: IH det_simps)
  next
    case False
    with nx have "determineCheckboxValue (Bool b) (g x) = Undefined"
      by (cases "g x") (simp_all add: det_simps)
    with False show ?thesis by (simp add: fold_det_Undefined)
  qed
qed

lemma fold_det_Null:
  assumes n: "\<forall>x \<in> set xs. g x \<noteq> Null"
  shows "fold (\<lambda>x acc. determineCheckboxValue acc (g x)) xs Null = foldedValue (map g xs)"
proof (cases xs)
  case Nil
  then show ?thesis by (simp add: foldedValue_def)
next
  case (Cons x rest)
  with n have nx: "g x \<noteq> Null" and nr: "\<forall>y \<in> set rest. g y \<noteq> Null" by simp_all
  show ?thesis
  proof (cases "g x")
    case Undefined
    then show ?thesis
      using Cons by (simp add: det_simps fold_det_Undefined foldedValue_def)
  next
    case Null
    with nx show ?thesis by simp
  next
    case (Bool b)
    then have "fold (\<lambda>x acc. determineCheckboxValue acc (g x)) xs Null
        = (if list_all (\<lambda>x. g x = Bool b) rest then Bool b else Undefined)"
      using Cons fold_det_Bool [OF nr, of b] by (simp add: det_simps)
    also have "\<dots> = foldedValue (map g xs)"
      using Cons Bool by (cases b) (auto simp add: foldedValue_def list_all_iff)
    finally show ?thesis .
  qed
qed

lemma foldedValue_Bool_iff:
  "foldedValue vs = Bool b \<longleftrightarrow> vs \<noteq> [] \<and> (\<forall>v \<in> set vs. v = Bool b)"
  by (cases b; cases vs) (auto simp add: foldedValue_def list_all_iff)

lemma foldedValue_Null_iff: "foldedValue vs = Null \<longleftrightarrow> vs = []"
  by (simp add: foldedValue_def)

lemma ofChecked_not_Null: "ofChecked c \<noteq> Null"
  by (cases c) (simp_all add: ofChecked_def)

lemma groupValueOf_folded:
  "groupValueOf g = foldedValue (map (\<lambda>kv. ofChecked (checked (snd kv))) (case g of None \<Rightarrow> [] | Some kvs \<Rightarrow> kvs))"
proof -
  have "groupValueOf g = fold (\<lambda>kv acc. determineCheckboxValue acc (ofChecked (checked (snd kv))))
          (case g of None \<Rightarrow> [] | Some kvs \<Rightarrow> kvs) Null"
    by (simp add: groupValueOf_def split_def)
  also have "\<dots> = foldedValue (map (\<lambda>kv. ofChecked (checked (snd kv))) (case g of None \<Rightarrow> [] | Some kvs \<Rightarrow> kvs))"
    by (rule fold_det_Null) (simp add: ofChecked_not_Null)
  finally show ?thesis .
qed

lemma childValue_folded: "childValue child = foldedValue (map ofChecked (childLeaves child))"
proof (cases "checked child")
  case None
  then show ?thesis
    by (simp add: childValue_def childLeaves_def groupValueOf_folded comp_def)
next
  case (Some b)
  then show ?thesis
    by (cases b) (simp_all add: childValue_def childLeaves_def foldedValue_def ofChecked_def)
qed

lemma childStep_value:
  "readProp (childStep kc m) ''value'' = determineCheckboxValue (readProp m ''value'') (childValue (snd kc))"
  by (cases "checked (snd kc)") (simp_all add: childStep_def childValue_def readProp_def Let_def)

lemma fold_childStep_value:
  "readProp (fold childStep kcs m) ''value''
     = fold (\<lambda>kc acc. determineCheckboxValue acc (childValue (snd kc))) kcs (readProp m ''value'')"
  by (induction kcs arbitrary: m) (simp_all add: childStep_value)

lemma subscription_value_folded:
  assumes "groupsInhabited sub"
  shows "readProp (subscriptionGroupValues sub) ''value''
           = foldedValue (map (\<lambda>kc. childValue (snd kc)) (fees sub))"
proof -
  have "\<forall>kc \<in> set (fees sub). childValue (snd kc) \<noteq> Null"
    using assms
    by (simp add: groupsInhabited_def list_all_iff childValue_folded foldedValue_Null_iff)
  then have "fold (\<lambda>kc acc. determineCheckboxValue acc (childValue (snd kc))) (fees sub) Null
      = foldedValue (map (\<lambda>kc. childValue (snd kc)) (fees sub))"
    by (rule fold_det_Null)
  moreover have "readProp [''value'' \<mapsto> Null] ''value'' = Null"
    by (simp add: readProp_def)
  ultimately show ?thesis
    by (simp only: subscriptionGroupValues_def fold_childStep_value)
qed

lemma subscription_value_Bool_iff:
  assumes "groupsInhabited sub"
  shows "readProp (subscriptionGroupValues sub) ''value'' = Bool b
           \<longleftrightarrow> leaves sub \<noteq> [] \<and> (\<forall>l \<in> set (leaves sub). l = Some b)"
proof -
  have inh: "\<forall>kc \<in> set (fees sub). childLeaves (snd kc) \<noteq> []"
    using assms by (simp add: groupsInhabited_def list_all_iff)
  have "readProp (subscriptionGroupValues sub) ''value'' = Bool b
          \<longleftrightarrow> fees sub \<noteq> [] \<and> (\<forall>kc \<in> set (fees sub). childValue (snd kc) = Bool b)"
    by (auto simp add: subscription_value_folded [OF assms] foldedValue_Bool_iff)
  also have "\<dots> \<longleftrightarrow> fees sub \<noteq> []
       \<and> (\<forall>kc \<in> set (fees sub). \<forall>l \<in> set (childLeaves (snd kc)). l = Some b)"
    using inh by (auto simp add: childValue_folded foldedValue_Bool_iff ofChecked_def split: option.splits)
  also have "\<dots> \<longleftrightarrow> leaves sub \<noteq> [] \<and> (\<forall>l \<in> set (leaves sub). l = Some b)"
    using inh by (cases "fees sub") (auto simp add: leaves_def)
  finally show ?thesis .
qed

lemma subscription_value_Null_iff:
  assumes "groupsInhabited sub"
  shows "readProp (subscriptionGroupValues sub) ''value'' = Null \<longleftrightarrow> leaves sub = []"
proof -
  have inh: "\<forall>kc \<in> set (fees sub). childLeaves (snd kc) \<noteq> []"
    using assms by (simp add: groupsInhabited_def list_all_iff)
  then show ?thesis
    by (cases "fees sub") (auto simp add: subscription_value_folded [OF assms] foldedValue_Null_iff leaves_def)
qed

lemma fold_subscriptions_other:
  "subKey \<notin> fst ` set fs \<Longrightarrow>
     fold (\<lambda>(subscriptionKey, subscriptionValues) acc.
             acc(subscriptionKey \<mapsto> subscriptionGroupValues subscriptionValues)) fs acc subKey
       = acc subKey"
  by (induction fs arbitrary: acc) (auto simp add: split_def)

lemma checkboxGroupValue_lookup:
  "distinct (map fst fs) \<Longrightarrow> (subKey, sub) \<in> set fs \<Longrightarrow>
     fold (\<lambda>(subscriptionKey, subscriptionValues) acc.
             acc(subscriptionKey \<mapsto> subscriptionGroupValues subscriptionValues)) fs acc subKey
       = Some (subscriptionGroupValues sub)"
proof (induction fs arbitrary: acc)
  case Nil
  then show ?case by simp
next
  case (Cons kv fs)
  show ?case
  proof (cases "(subKey, sub) \<in> set fs")
    case True
    with Cons show ?thesis by simp
  next
    case False
    with Cons.prems have kv: "kv = (subKey, sub)" by auto
    with Cons.prems have nk: "subKey \<notin> fst ` set fs" by simp
    show ?thesis
      unfolding kv fold_simps by (simp only: fold_subscriptions_other [OF nk]) simp
  qed
qed

lemma opt_bool_cases: "l \<noteq> None \<Longrightarrow> l \<noteq> Some True \<Longrightarrow> l = Some False"
  by (cases l) auto

lemma all_bool_cases:
  "(v = Undefined) \<longleftrightarrow> (v \<noteq> Null \<and> v \<noteq> Bool True \<and> v \<noteq> Bool False)"
  by (cases v) auto

text \<open>
  C1. For every form state whose subscription keys are distinct, and every
  subscription in which each child that is not itself a leaf holds at least one grouped fee,
  the value of the subscription's checkbox is determined by the \<open>checked\<close> flags of its leaf
  fees: it is \<open>true\<close> exactly when there is a leaf and every leaf is checked, \<open>false\<close> exactly
  when there is a leaf and every leaf is unchecked, \<open>null\<close> exactly when there is no leaf, and
  \<open>undefined\<close> exactly when two leaves disagree or a leaf's flag is undefined. The fold is
  seeded with \<open>null\<close>, and \<open>determineCheckboxValue\<close> maps \<open>(undefined, _)\<close> and
  \<open>(_, undefined)\<close> to \<open>undefined\<close>, \<open>(null, b)\<close> to \<open>b\<close>, equal booleans to that boolean and
  unequal booleans to \<open>undefined\<close>.
\<close>

theorem C1_checkbox_aggregate:
  assumes "distinct (map fst formFees)" and "(subKey, sub) \<in> set formFees" and "groupsInhabited sub"
  shows "(subscriptionCheckboxValue (Some formFees) subKey = Bool True
            \<longleftrightarrow> leaves sub \<noteq> [] \<and> (\<forall>l \<in> set (leaves sub). l = Some True))
       \<and> (subscriptionCheckboxValue (Some formFees) subKey = Bool False
            \<longleftrightarrow> leaves sub \<noteq> [] \<and> (\<forall>l \<in> set (leaves sub). l = Some False))
       \<and> (subscriptionCheckboxValue (Some formFees) subKey = Null \<longleftrightarrow> leaves sub = [])
       \<and> (subscriptionCheckboxValue (Some formFees) subKey = Undefined
            \<longleftrightarrow> None \<in> set (leaves sub) \<or> (Some True \<in> set (leaves sub) \<and> Some False \<in> set (leaves sub)))
       \<and> determineCheckboxValue Undefined x = Undefined
       \<and> determineCheckboxValue x Undefined = Undefined
       \<and> determineCheckboxValue Null (Bool b) = Bool b
       \<and> determineCheckboxValue (Bool b) (Bool b) = Bool b
       \<and> determineCheckboxValue (Bool b) (Bool (\<not> b)) = Undefined"
proof -
  let ?v = "subscriptionCheckboxValue (Some formFees) subKey"
  have v: "?v = readProp (subscriptionGroupValues sub) ''value''"
    using assms(1,2) by (simp add: subscriptionCheckboxValue_def checkboxGroupValue_def checkboxGroupValue_lookup)
  have t: "?v = Bool True \<longleftrightarrow> leaves sub \<noteq> [] \<and> (\<forall>l \<in> set (leaves sub). l = Some True)"
    and f: "?v = Bool False \<longleftrightarrow> leaves sub \<noteq> [] \<and> (\<forall>l \<in> set (leaves sub). l = Some False)"
    and n: "?v = Null \<longleftrightarrow> leaves sub = []"
    unfolding v
    using subscription_value_Bool_iff [OF assms(3)] subscription_value_Null_iff [OF assms(3)]
    by blast+
  have u: "?v = Undefined
            \<longleftrightarrow> None \<in> set (leaves sub) \<or> (Some True \<in> set (leaves sub) \<and> Some False \<in> set (leaves sub))"
  proof -
    have "?v = Undefined \<longleftrightarrow> \<not> (leaves sub = []) \<and> \<not> (\<forall>l \<in> set (leaves sub). l = Some True)
              \<and> \<not> (\<forall>l \<in> set (leaves sub). l = Some False)"
      unfolding all_bool_cases [of ?v] t f n by auto
    also have "\<dots> \<longleftrightarrow> None \<in> set (leaves sub) \<or> (Some True \<in> set (leaves sub) \<and> Some False \<in> set (leaves sub))"
    proof
      assume a: "\<not> (leaves sub = []) \<and> \<not> (\<forall>l \<in> set (leaves sub). l = Some True)
              \<and> \<not> (\<forall>l \<in> set (leaves sub). l = Some False)"
      show "None \<in> set (leaves sub) \<or> (Some True \<in> set (leaves sub) \<and> Some False \<in> set (leaves sub))"
      proof (cases "None \<in> set (leaves sub)")
        case True
        then show ?thesis by simp
      next
        case False
        from a obtain l1 where l1: "l1 \<in> set (leaves sub)" "l1 \<noteq> Some True" by blast
        from a obtain l2 where l2: "l2 \<in> set (leaves sub)" "l2 \<noteq> Some False" by blast
        from l1 False have "l1 = Some False" by (metis opt_bool_cases)
        moreover from l2 False have "l2 = Some True" by (metis opt_bool_cases)
        ultimately show ?thesis using l1 l2 by auto
      qed
    next
      assume "None \<in> set (leaves sub) \<or> (Some True \<in> set (leaves sub) \<and> Some False \<in> set (leaves sub))"
      then show "\<not> (leaves sub = []) \<and> \<not> (\<forall>l \<in> set (leaves sub). l = Some True)
              \<and> \<not> (\<forall>l \<in> set (leaves sub). l = Some False)"
        by auto
    qed
    finally show ?thesis .
  qed
  have d: "determineCheckboxValue Undefined x = Undefined"
    "determineCheckboxValue x Undefined = Undefined"
    "determineCheckboxValue Null (Bool b) = Bool b"
    "determineCheckboxValue (Bool b) (Bool b) = Bool b"
    "determineCheckboxValue (Bool b) (Bool (\<not> b)) = Undefined"
    by (simp_all add: det_simps)
  from t f n u d show ?thesis by blast
qed

theorem C1_checkbox_aggregate_witness:
  "distinct (map fst [(''sub1'', subAllChecked), (''sub2'', subMixed)])
   \<and> groupsInhabited subAllChecked \<and> groupsInhabited subMixed
   \<and> leaves subAllChecked = [Some True, Some True, Some True]
   \<and> subscriptionCheckboxValue (Some [(''sub1'', subAllChecked), (''sub2'', subMixed)]) ''sub1'' = Bool True
   \<and> leaves subMixed = [Some True, Some True, Some False]
   \<and> subscriptionCheckboxValue (Some [(''sub1'', subAllChecked), (''sub2'', subMixed)]) ''sub2'' = Undefined"
proof -
  have d: "distinct (map fst [(''sub1'', subAllChecked), (''sub2'', subMixed)])" by simp
  have m1: "(''sub1'', subAllChecked) \<in> set [(''sub1'', subAllChecked), (''sub2'', subMixed)]" by simp
  have m2: "(''sub2'', subMixed) \<in> set [(''sub1'', subAllChecked), (''sub2'', subMixed)]" by simp
  have l1: "leaves subAllChecked = [Some True, Some True, Some True]"
    by (simp add: leaves_def childLeaves_def subAllChecked_def leaf_def group_def fee_def)
  have l2: "leaves subMixed = [Some True, Some True, Some False]"
    by (simp add: leaves_def childLeaves_def subMixed_def leaf_def group_def fee_def)
  have g1: "groupsInhabited subAllChecked"
    by (simp add: groupsInhabited_def childLeaves_def subAllChecked_def leaf_def group_def)
  have g2: "groupsInhabited subMixed"
    by (simp add: groupsInhabited_def childLeaves_def subMixed_def leaf_def group_def)
  show ?thesis
    using C1_checkbox_aggregate [OF d m1 g1] C1_checkbox_aggregate [OF d m2 g2] d g1 g2
    by (simp add: l1 l2)
qed

text \<open>
  Without the two restrictions on the leaves the property fails. A subscription without
  fees has no leaf, so all its leaves are checked, yet its checkbox value is \<open>null\<close>. And with a checked leaf followed
  by a group without fees, the only leaf is checked, yet the value is \<open>undefined\<close>: the
  \<open>null\<close> of the empty group reaches \<open>determineCheckboxValue\<close> as its second argument. With
  the empty group first the value is \<open>true\<close>.
\<close>

lemma sample_values:
  "readProp (subscriptionGroupValues subNoFees) ''value'' = Null"
  "readProp (subscriptionGroupValues subEmptyGroupLast) ''value'' = Undefined"
  "readProp (subscriptionGroupValues subEmptyGroupFirst) ''value'' = Bool True"
  by (simp_all add: subscriptionGroupValues_def subNoFees_def subEmptyGroupLast_def subEmptyGroupFirst_def
      childStep_def groupValueOf_def readProp_def leaf_def group_def determineCheckboxValue_def)

theorem C1_checkbox_counterexample:
  "leaves subNoFees = []
   \<and> subscriptionCheckboxValue (Some [(''sub1'', subNoFees)]) ''sub1'' = Null
   \<and> leaves subEmptyGroupLast = [Some True]
   \<and> subscriptionCheckboxValue (Some [(''sub1'', subEmptyGroupLast)]) ''sub1'' = Undefined
   \<and> leaves subEmptyGroupFirst = [Some True]
   \<and> subscriptionCheckboxValue (Some [(''sub1'', subEmptyGroupFirst)]) ''sub1'' = Bool True"
  by (simp add: subscriptionCheckboxValue_def checkboxGroupValue_def sample_values)
     (simp add: leaves_def childLeaves_def subNoFees_def subEmptyGroupLast_def subEmptyGroupFirst_def
        leaf_def group_def)

end
